theory Spec2Isabelle
  imports Main "HOL-Library.Multiset"
begin

section \<open>Data model of \<open>bookmark-app.tsx\<close>\<close>

text \<open>
  The \<open>Bookmark\<close> type of the source has the four string fields \<open>id\<close>, \<open>url\<close>, \<open>title\<close>
  and \<open>created_at\<close>. The first three carry the suffix \<open>_b\<close> here: \<open>id\<close> is the identity
  function of HOL, and \<open>url\<close> and \<open>title\<close> are also fields of the component state below.

  JavaScript strings are modelled as \<open>string\<close>; a character stands for a code unit below 256.
\<close>

record bookmark =
  id_b :: string
  url_b :: string
  title_b :: string
  created_at :: string

text \<open>
  \<open>User\<close> and \<open>Session\<close> come from the client library; the component reads \<open>user.id\<close>,
  \<open>user.email\<close> and \<open>session.user\<close> only. The library types \<open>Session.user\<close> as a \<open>User\<close>
  that is always there, so \<^verbatim>\<open>!newSession?.user\<close> holds exactly when the session is \<open>null\<close>.
\<close>

record user_rec =
  id_u :: string
  email :: string

record session_rec =
  user_s :: user_rec

text \<open>The handle returned by \<^verbatim>\<open>supabase.channel(...).on(...).subscribe()\<close>.\<close>

type_synonym channel = nat

text \<open>The hooks of \<open>BookmarkApp\<close>: eight \<open>useState\<close> cells and one \<open>useRef\<close>.\<close>

record app_state =
  session :: "session_rec option"
  user :: "user_rec option"
  bookmarks :: "bookmark list"
  title :: string
  url :: string
  loading :: bool
  saving :: bool
  error :: "string option"
  realtimeChannelRef :: "channel option"

text \<open>
  The payload of a \<open>postgres_changes\<close> notification. The callback reads \<open>payload.eventType\<close>,
  \<open>payload.new\<close> (the row, for INSERT and UPDATE) and \<^verbatim>\<open>(payload.old as any).id\<close> (for DELETE).
\<close>

datatype payload = INSERT bookmark | UPDATE bookmark | DELETE string

text \<open>The row sent by \<^verbatim>\<open>supabase.from("bookmarks").insert({title, url, user_id})\<close>.\<close>

record insert_row =
  title_r :: string
  url_r :: string
  user_id :: string

text \<open>The \<^verbatim>\<open>{ data, error }\<close> answer of the select request; either part may be \<open>null\<close>.\<close>

record select_answer =
  data_a :: "bookmark list option"
  error_a :: "string option"

text \<open>
  What a handler does, in program order: the calls of the state setters (with the value
  stored) and the calls that leave the component (backend requests, the channel, the
  console, the form event).
\<close>

datatype call =
    SetSession "session_rec option"
  | SetUser "user_rec option"
  | SetBookmarks "bookmark list"
  | SetTitle string
  | SetUrl string
  | SetLoading bool
  | SetSaving bool
  | SetError "string option"
  | PreventDefault
  | ConsoleError
  | RemoveChannel channel
  | Subscribe channel
  | SelectRequest
  | InsertRequest insert_row
  | DeleteRequest string
  | SignOutRequest

text \<open>A run is the state reached together with the calls made so far.\<close>

type_synonym run = "app_state \<times> call list"

definition emit :: "call \<Rightarrow> run \<Rightarrow> run" where
  "emit c r = (fst r, snd r @ [c])"

definition steps :: "(run \<Rightarrow> run) list \<Rightarrow> run \<Rightarrow> run" where
  "steps fs r = fold (\<lambda>f. f) fs r"

definition setSession :: "session_rec option \<Rightarrow> run \<Rightarrow> run" where
  "setSession v r = emit (SetSession v) ((fst r)\<lparr>session := v\<rparr>, snd r)"

definition setUser :: "user_rec option \<Rightarrow> run \<Rightarrow> run" where
  "setUser v r = emit (SetUser v) ((fst r)\<lparr>user := v\<rparr>, snd r)"

definition setBookmarks :: "(bookmark list \<Rightarrow> bookmark list) \<Rightarrow> run \<Rightarrow> run" where
  "setBookmarks f r =
     (let v = f (bookmarks (fst r)) in emit (SetBookmarks v) ((fst r)\<lparr>bookmarks := v\<rparr>, snd r))"

definition setTitle :: "string \<Rightarrow> run \<Rightarrow> run" where
  "setTitle v r = emit (SetTitle v) ((fst r)\<lparr>title := v\<rparr>, snd r)"

definition setUrl :: "string \<Rightarrow> run \<Rightarrow> run" where
  "setUrl v r = emit (SetUrl v) ((fst r)\<lparr>url := v\<rparr>, snd r)"

definition setLoading :: "bool \<Rightarrow> run \<Rightarrow> run" where
  "setLoading v r = emit (SetLoading v) ((fst r)\<lparr>loading := v\<rparr>, snd r)"

definition setSaving :: "bool \<Rightarrow> run \<Rightarrow> run" where
  "setSaving v r = emit (SetSaving v) ((fst r)\<lparr>saving := v\<rparr>, snd r)"

definition setError :: "string option \<Rightarrow> run \<Rightarrow> run" where
  "setError v r = emit (SetError v) ((fst r)\<lparr>error := v\<rparr>, snd r)"

subsection \<open>The view projector: \<open>sortedBookmarks\<close>\<close>

text \<open>
  \<^verbatim>\<open>[...bookmarks].sort((a, b) => new Date(b.created_at).getTime() - new Date(a.created_at).getTime())\<close>

  Parsing a date is the work of the JavaScript runtime, so the function \<open>getTime\<close> from the
  timestamp string to the milliseconds since the epoch is a parameter; \<open>None\<close> stands for
  \<open>NaN\<close>, the time value of an invalid date. Time values are integers of magnitude at most
  8.64e15, so the sign of the floating-point difference is the sign of the integer difference.
  A comparator result \<open>NaN\<close> counts as \<open>+0\<close> in \<open>Array.prototype.sort\<close>.
\<close>

definition compareCreated :: "(string \<Rightarrow> int option) \<Rightarrow> bookmark \<Rightarrow> bookmark \<Rightarrow> int" where
  "compareCreated getTime a b =
     (case getTime (created_at b) of
        None \<Rightarrow> 0
      | Some tb \<Rightarrow> (case getTime (created_at a) of None \<Rightarrow> 0 | Some ta \<Rightarrow> tb - ta))"

text \<open>
  \<open>Array.prototype.sort\<close> is stable, and for a consistent comparator its result is fixed by
  the language: the elements in comparator order, equal ones in their original order. A stable
  insertion sort computes that arrangement. (For a comparator that is not consistent, as with
  invalid dates among valid ones, the language leaves the order to the engine.)
\<close>

fun sort_insert :: "('a \<Rightarrow> 'a \<Rightarrow> int) \<Rightarrow> 'a \<Rightarrow> 'a list \<Rightarrow> 'a list" where
  "sort_insert cmp x [] = [x]"
| "sort_insert cmp x (y # ys) =
     (if cmp x y \<le> 0 then x # y # ys else y # sort_insert cmp x ys)"

fun js_sort :: "('a \<Rightarrow> 'a \<Rightarrow> int) \<Rightarrow> 'a list \<Rightarrow> 'a list" where
  "js_sort cmp [] = []"
| "js_sort cmp (x # xs) = sort_insert cmp x (js_sort cmp xs)"

definition sortedBookmarks :: "(string \<Rightarrow> int option) \<Rightarrow> bookmark list \<Rightarrow> bookmark list" where
  "sortedBookmarks getTime bs = js_sort (compareCreated getTime) bs"

text \<open>\<open>newer_eq getTime a b\<close>: both timestamps are valid and \<open>a\<close> is at least as new as \<open>b\<close>.\<close>

definition newer_eq :: "(string \<Rightarrow> int option) \<Rightarrow> bookmark \<Rightarrow> bookmark \<Rightarrow> bool" where
  "newer_eq getTime a b =
     (case getTime (created_at a) of
        None \<Rightarrow> False
      | Some ta \<Rightarrow> (case getTime (created_at b) of None \<Rightarrow> False | Some tb \<Rightarrow> tb \<le> ta))"

subsection \<open>The snapshot loader: \<open>loadBookmarks\<close>\<close>

text \<open>
  \<open>loadBookmarks\<close> is asynchronous: it clears the error and issues the select request, and
  continues when the answer arrives. The two halves are \<open>loadBookmarks_request\<close> and
  \<open>loadBookmarks_answer\<close>; \<open>loadBookmarks\<close> runs one after the other.
\<close>

definition loadBookmarks_request :: "run \<Rightarrow> run" where
  "loadBookmarks_request = steps [setError None, emit SelectRequest]"

definition loadBookmarks_answer :: "select_answer \<Rightarrow> run \<Rightarrow> run" where
  "loadBookmarks_answer ans =
     (case error_a ans of
        Some e \<Rightarrow> steps [emit ConsoleError, setError (Some ''Failed to load bookmarks'')]
      | None \<Rightarrow> setBookmarks (\<lambda>_. case data_a ans of None \<Rightarrow> [] | Some d \<Rightarrow> d))"

definition loadBookmarks :: "select_answer \<Rightarrow> run \<Rightarrow> run" where
  "loadBookmarks ans = steps [loadBookmarks_request, loadBookmarks_answer ans]"

subsection \<open>The change feed: \<open>teardownRealtime\<close>, \<open>setupRealtime\<close> and its callback\<close>

definition teardownRealtime :: "run \<Rightarrow> run" where
  "teardownRealtime r =
     (case realtimeChannelRef (fst r) of
        None \<Rightarrow> r
      | Some c \<Rightarrow> (case emit (RemoveChannel c) r of (s, tr) \<Rightarrow> (s\<lparr>realtimeChannelRef := None\<rparr>, tr)))"

text \<open>\<open>channel\<close> is the handle that the subscription returns.\<close>

definition setupRealtime :: "channel \<Rightarrow> run \<Rightarrow> run" where
  "setupRealtime channel r =
     (case steps [teardownRealtime, emit (Subscribe channel)] r of
        (s, tr) \<Rightarrow> (s\<lparr>realtimeChannelRef := Some channel\<rparr>, tr))"

text \<open>
  The three updater functions that the callback hands to \<open>setBookmarks\<close>:
  \<^item> INSERT: \<^verbatim>\<open>[...(current ?? []), payload.new as Bookmark]\<close>
  \<^item> DELETE: \<^verbatim>\<open>(current ?? []).filter((b) => b.id !== (payload.old as any).id)\<close>
  \<^item> UPDATE: \<^verbatim>\<open>(current ?? []).map((b) => b.id === (payload.new as any).id ? (payload.new as Bookmark) : b)\<close>
\<close>

fun applyPayload :: "payload \<Rightarrow> bookmark list \<Rightarrow> bookmark list" where
  "applyPayload (INSERT new) current = current @ [new]"
| "applyPayload (DELETE old_id) current = filter (\<lambda>b. id_b b \<noteq> old_id) current"
| "applyPayload (UPDATE new) current = map (\<lambda>b. if id_b b = id_b new then new else b) current"

definition onPayload :: "payload \<Rightarrow> run \<Rightarrow> run" where
  "onPayload p = setBookmarks (applyPayload p)"

text \<open>Events are applied one by one, in delivery order.\<close>

definition applyPayloads :: "payload list \<Rightarrow> bookmark list \<Rightarrow> bookmark list" where
  "applyPayloads evs current = fold applyPayload evs current"

subsection \<open>The session tracker: the \<open>onAuthStateChange\<close> listener\<close>

text \<open>
  With a session, the listener starts \<open>loadBookmarks\<close> without awaiting it (the answer is
  handled later by \<open>loadBookmarks_answer\<close>) and subscribes; \<open>channel\<close> is the new handle.
\<close>

definition onAuthStateChange :: "session_rec option \<Rightarrow> channel \<Rightarrow> run \<Rightarrow> run" where
  "onAuthStateChange newSession channel =
     steps [setSession newSession,
            setUser (map_option user_s newSession),
            (case newSession of
               None \<Rightarrow> steps [setBookmarks (\<lambda>_. []), teardownRealtime]
             | Some _ \<Rightarrow> steps [loadBookmarks_request, setupRealtime channel])]"

definition handleSignOut :: "run \<Rightarrow> run" where
  "handleSignOut = steps [setError None, teardownRealtime, emit SignOutRequest]"

subsection \<open>The command handlers\<close>

text \<open>
  \<open>String.prototype.trim\<close> removes white space and line terminators from both ends; among
  the code units below 256 these are TAB, LF, VT, FF, CR, SP and NBSP.
\<close>

definition isWhiteSpace :: "char \<Rightarrow> bool" where
  "isWhiteSpace c \<longleftrightarrow>
     c = CHR 0x09 \<or> c = CHR 0x0A \<or> c = CHR 0x0B \<or> c = CHR 0x0C \<or> c = CHR 0x0D \<or>
     c = CHR 0x20 \<or> c = CHR 0xA0"

definition trim :: "string \<Rightarrow> string" where
  "trim s = rev (dropWhile isWhiteSpace (rev (dropWhile isWhiteSpace s)))"

definition startsWith :: "string \<Rightarrow> string \<Rightarrow> bool" where
  "startsWith s p \<longleftrightarrow> take (length p) s = p"

text \<open>
  \<^verbatim>\<open>url.startsWith("http://") || url.startsWith("https://") ? url : `https://${url}`\<close>
\<close>

definition normalizedUrl :: "string \<Rightarrow> string" where
  "normalizedUrl u =
     (if startsWith u ''http://'' \<or> startsWith u ''https://'' then u else ''https://'' @ u)"

text \<open>
  \<open>handleAddBookmark\<close> reads \<open>user\<close>, \<open>url\<close> and \<open>title\<close> of the render it belongs to.
  \<open>insert_error\<close> is the \<open>error\<close> part of the backend's answer to the insert request.
\<close>

definition handleAddBookmark :: "string option \<Rightarrow> run \<Rightarrow> run" where
  "handleAddBookmark insert_error r =
     (let s = fst r in
      steps [emit PreventDefault,
             (case user s of
                None \<Rightarrow> (\<lambda>r. r)
              | Some u \<Rightarrow>
                  if trim (url s) = [] \<or> trim (title s) = [] then
                    setError (Some ''Please provide both a title and URL'')
                  else
                    steps [setSaving True,
                           setError None,
                           emit (InsertRequest \<lparr>title_r = trim (title s),
                                                 url_r = trim (normalizedUrl (url s)),
                                                 user_id = id_u u\<rparr>),
                           setSaving False,
                           (case insert_error of
                              Some e \<Rightarrow> steps [emit ConsoleError,
                                               setError (Some ''Failed to save bookmark'')]
                            | None \<Rightarrow> steps [setTitle [], setUrl []])])] r)"

text \<open>\<open>delete_error\<close> is the \<open>error\<close> part of the backend's answer to the delete request.\<close>

definition handleDeleteBookmark :: "string \<Rightarrow> string option \<Rightarrow> run \<Rightarrow> run" where
  "handleDeleteBookmark i delete_error =
     steps [setError None,
            emit (DeleteRequest i),
            (case delete_error of
               Some e \<Rightarrow> steps [emit ConsoleError, setError (Some ''Failed to delete bookmark'')]
             | None \<Rightarrow> (\<lambda>r. r))]"

subsection \<open>What is rendered, and the two input fields\<close>

text \<open>
  The component returns one of three pages: the connecting notice while \<open>loading\<close>, the
  sign-in page when \<^verbatim>\<open>!session || !user\<close>, and otherwise the page with the form, whose
  \<open>onSubmit\<close> is \<open>handleAddBookmark\<close>, and the list.
\<close>

datatype page = ConnectingPage | SignInPage | BookmarksPage

definition BookmarkApp_page :: "app_state \<Rightarrow> page" where
  "BookmarkApp_page s =
     (if loading s then ConnectingPage
      else if session s = None \<or> user s = None then SignInPage
      else BookmarksPage)"

text \<open>
  The two cells \<open>title\<close> and \<open>url\<close> are written by the \<open>onChange\<close> of their input
  elements, \<^verbatim>\<open>(e) => setTitle(e.target.value)\<close> on an \<^verbatim>\<open><input type="text">\<close> and
  \<^verbatim>\<open>(e) => setUrl(e.target.value)\<close> on an \<^verbatim>\<open><input type="url">\<close>. The value of an input
  element is sanitised by the browser (HTML standard, value sanitization algorithm): a text
  input strips the newlines LF and CR; a url input strips the newlines and then the leading
  and trailing ASCII whitespace, which is TAB, LF, FF, CR and SP. VT and NBSP are not ASCII
  whitespace, although \<open>String.prototype.trim\<close> removes them.
\<close>

definition isAsciiWhitespace :: "char \<Rightarrow> bool" where
  "isAsciiWhitespace c \<longleftrightarrow>
     c = CHR 0x09 \<or> c = CHR 0x0A \<or> c = CHR 0x0C \<or> c = CHR 0x0D \<or> c = CHR 0x20"

definition stripNewlines :: "string \<Rightarrow> string" where
  "stripNewlines v = filter (\<lambda>c. c \<noteq> CHR 0x0A \<and> c \<noteq> CHR 0x0D) v"

definition urlInputValue :: "string \<Rightarrow> string" where
  "urlInputValue v =
     rev (dropWhile isAsciiWhitespace (rev (dropWhile isAsciiWhitespace (stripNewlines v))))"

definition onChangeTitle :: "string \<Rightarrow> run \<Rightarrow> run" where
  "onChangeTitle entered = setTitle (stripNewlines entered)"

definition onChangeUrl :: "string \<Rightarrow> run \<Rightarrow> run" where
  "onChangeUrl entered = setUrl (urlInputValue entered)"

section \<open>The event log of the specification\<close>

text \<open>
  The specification reads a sequence of feed events as a log over a map keyed by
  identifier. \<open>log_step\<close> and \<open>log_replay\<close> follow its words, not the code: an insert
  writes the record under its identifier, an update replaces the record of an identifier
  that is there and does nothing otherwise (section 4.3), a delete removes the identifier
  whatever was there.
\<close>

fun log_step :: "payload \<Rightarrow> (string \<rightharpoonup> bookmark) \<Rightarrow> (string \<rightharpoonup> bookmark)" where
  "log_step (INSERT new) m = m(id_b new \<mapsto> new)"
| "log_step (UPDATE new) m = (if m (id_b new) = None then m else m(id_b new \<mapsto> new))"
| "log_step (DELETE old_id) m = m(old_id := None)"

definition log_replay :: "payload list \<Rightarrow> (string \<rightharpoonup> bookmark) \<Rightarrow> (string \<rightharpoonup> bookmark)" where
  "log_replay evs m = fold log_step evs m"

text \<open>
  The list read as such a map: under each identifier the last record of the list that
  carries it. For a list with distinct identifiers the map holds exactly the records of
  the list.
\<close>

definition latest_by_id :: "bookmark list \<Rightarrow> (string \<rightharpoonup> bookmark)" where
  "latest_by_id xs = map_of (rev (map (\<lambda>b. (id_b b, b)) xs))"

text \<open>
  \<open>fresh_inserts evs current\<close>: while \<open>evs\<close> is applied to \<open>current\<close>, no insert event
  arrives for an identifier that is in the list at that moment.
\<close>

fun fresh_inserts :: "payload list \<Rightarrow> bookmark list \<Rightarrow> bool" where
  "fresh_inserts [] current = True"
| "fresh_inserts (INSERT new # evs) current =
     (id_b new \<notin> id_b ` set current \<and> fresh_inserts evs (applyPayload (INSERT new) current))"
| "fresh_inserts (ev # evs) current = fresh_inserts evs (applyPayload ev current)"

text \<open>\<open>happens_before a b tr\<close>: the call \<open>b\<close> is made after the first call \<open>a\<close> of the trace.\<close>

definition happens_before :: "call \<Rightarrow> call \<Rightarrow> call list \<Rightarrow> bool" where
  "happens_before a b tr \<longleftrightarrow> b \<in> set (drop 1 (dropWhile (\<lambda>c. c \<noteq> a) tr))"

text \<open>
  The normalisation as the specification words it: the scheme is looked for in the
  trimmed URL.
\<close>

definition normalize_spec :: "string \<Rightarrow> string" where
  "normalize_spec u =
     (let t = trim u in
      if startsWith t ''http://'' \<or> startsWith t ''https://'' then t else ''https://'' @ t)"

section \<open>Concrete inputs\<close>

definition ex_b1 :: bookmark where
  "ex_b1 = \<lparr>id_b = ''1'', url_b = ''https://a.example'', title_b = ''A'',
            created_at = ''2024-01-01T00:00:00Z''\<rparr>"

definition ex_b1_renamed :: bookmark where
  "ex_b1_renamed = \<lparr>id_b = ''1'', url_b = ''https://a.example'', title_b = ''A2'',
                    created_at = ''2024-01-01T00:00:00Z''\<rparr>"

definition ex_b2 :: bookmark where
  "ex_b2 = \<lparr>id_b = ''2'', url_b = ''https://b.example'', title_b = ''B'',
            created_at = ''2024-01-02T00:00:00Z''\<rparr>"

definition ex_user :: user_rec where
  "ex_user = \<lparr>id_u = ''u1'', email = ''u1@mail.example''\<rparr>"

text \<open>A signed-in state with two bookmarks and an open channel.\<close>

definition ex_state :: app_state where
  "ex_state = \<lparr>session = Some \<lparr>user_s = ex_user\<rparr>, user = Some ex_user,
               bookmarks = [ex_b1, ex_b2], title = [], url = [],
               loading = False, saving = False, error = None,
               realtimeChannelRef = Some 7\<rparr>"

text \<open>A time function that knows the two timestamps of the examples.\<close>

definition ex_getTime :: "string \<Rightarrow> int option" where
  "ex_getTime t =
     (if t = ''2024-01-01T00:00:00Z'' then Some 1704067200000
      else if t = ''2024-01-02T00:00:00Z'' then Some 1704153600000
      else None)"

section \<open>Theorems\<close>

subsection \<open>Shared lemmas\<close>

lemma latest_append: "latest_by_id (xs @ [p]) = (latest_by_id xs)(id_b p \<mapsto> p)"
  by (simp add: latest_by_id_def)

lemma latest_Nil: "latest_by_id [] = Map.empty"
  by (simp add: latest_by_id_def)

lemma dom_latest: "dom (latest_by_id xs) = id_b ` set xs"
  by (simp add: latest_by_id_def dom_map_of_conv_image_fst image_image)

lemma latest_filter: "latest_by_id (filter (\<lambda>b. id_b b \<noteq> i) xs) = (latest_by_id xs)(i := None)"
  by (induction xs rule: rev_induct) (auto simp: latest_append latest_Nil)

lemma latest_map:
  "latest_by_id (map (\<lambda>b. if id_b b = id_b n then n else b) xs) =
     (if latest_by_id xs (id_b n) = None then latest_by_id xs else (latest_by_id xs)(id_b n \<mapsto> n))"
  by (induction xs rule: rev_induct) (auto simp: latest_append latest_Nil)

lemma latest_step: "latest_by_id (applyPayload ev xs) = log_step ev (latest_by_id xs)"
  by (cases ev) (simp_all add: latest_append latest_filter latest_map)

lemma latest_replay: "latest_by_id (applyPayloads evs xs) = log_replay evs (latest_by_id xs)"
  unfolding applyPayloads_def log_replay_def
  by (induction evs arbitrary: xs) (simp_all add: latest_step)

lemma ran_latest_distinct: "distinct (map id_b xs) \<Longrightarrow> ran (latest_by_id xs) = set xs"
proof -
  assume d: "distinct (map id_b xs)"
  have "distinct (map fst (rev (map (\<lambda>b. (id_b b, b)) xs)))"
    using d by (simp add: rev_map [symmetric] comp_def)
  then have "ran (latest_by_id xs) = snd ` set (rev (map (\<lambda>b. (id_b b, b)) xs))"
    unfolding latest_by_id_def by (rule ran_distinct)
  then show ?thesis by (simp add: image_image)
qed

lemma distinct_update: "distinct (map id_b xs) \<Longrightarrow> distinct (map id_b (applyPayload (UPDATE n) xs))"
proof -
  assume d: "distinct (map id_b xs)"
  have "map id_b (applyPayload (UPDATE n) xs) = map id_b xs"
    by (induction xs) auto
  with d show ?thesis by (simp only:)
qed

lemma distinct_delete: "distinct (map id_b xs) \<Longrightarrow> distinct (map id_b (applyPayload (DELETE i) xs))"
  by (simp add: distinct_map_filter)

lemma distinct_insert:
  "distinct (map id_b xs) \<Longrightarrow>
   distinct (map id_b (applyPayload (INSERT n) xs)) \<longleftrightarrow> id_b n \<notin> id_b ` set xs"
  by auto

lemma fresh_distinct:
  "distinct (map id_b xs) \<Longrightarrow> fresh_inserts evs xs \<Longrightarrow> distinct (map id_b (applyPayloads evs xs))"
  unfolding applyPayloads_def
proof (induction evs arbitrary: xs)
  case Nil
  then show ?case by simp
next
  case (Cons ev evs)
  have step: "distinct (map id_b (applyPayload ev xs))"
  proof (cases ev)
    case (INSERT new)
    with Cons.prems show ?thesis by simp
  next
    case (UPDATE new)
    with Cons.prems(1) show ?thesis by (simp only: distinct_update)
  next
    case (DELETE old_id)
    with Cons.prems(1) show ?thesis by (simp only: distinct_delete)
  qed
  have rest: "fresh_inserts evs (applyPayload ev xs)"
    using Cons.prems(2) by (cases ev) simp_all
  from Cons.IH [OF step rest] show ?case by simp
qed

lemmas ex_defs = ex_b1_def ex_b1_renamed_def ex_b2_def ex_user_def ex_state_def

lemmas run_defs = emit_def steps_def setSession_def setUser_def setBookmarks_def setTitle_def
  setUrl_def setLoading_def setSaving_def setError_def Let_def

lemma bookmarks_onPayload:
  "bookmarks (fst (onPayload ev (s, tr))) = applyPayload ev (bookmarks s)"
  by (simp add: onPayload_def run_defs)

lemma bookmarks_onPayload_run:
  "bookmarks (fst (onPayload ev r)) = applyPayload ev (bookmarks (fst r))"
  by (simp add: onPayload_def run_defs)

lemma loadBookmarks_failure:
  "error_a ans = Some e \<Longrightarrow>
   loadBookmarks ans (s, tr) =
     (s\<lparr>error := Some ''Failed to load bookmarks''\<rparr>,
      tr @ [SetError None, SelectRequest, ConsoleError, SetError (Some ''Failed to load bookmarks'')])"
  by (simp add: loadBookmarks_def loadBookmarks_request_def loadBookmarks_answer_def run_defs)

lemma loadBookmarks_success:
  "error_a ans = None \<Longrightarrow>
   loadBookmarks ans (s, tr) =
     (s\<lparr>error := None, bookmarks := (case data_a ans of None \<Rightarrow> [] | Some d \<Rightarrow> d)\<rparr>,
      tr @ [SetError None, SelectRequest, SetBookmarks (case data_a ans of None \<Rightarrow> [] | Some d \<Rightarrow> d)])"
  by (simp add: loadBookmarks_def loadBookmarks_request_def loadBookmarks_answer_def run_defs)

lemma teardownRealtime_open:
  "realtimeChannelRef s = Some c \<Longrightarrow>
   teardownRealtime (s, tr) = (s\<lparr>realtimeChannelRef := None\<rparr>, tr @ [RemoveChannel c])"
  by (simp add: teardownRealtime_def emit_def)

lemma teardownRealtime_closed:
  "realtimeChannelRef s = None \<Longrightarrow> teardownRealtime (s, tr) = (s, tr)"
  by (simp add: teardownRealtime_def)

lemma onAuthStateChange_absent:
  "onAuthStateChange None channel (s, tr) =
     (s\<lparr>session := None, user := None, bookmarks := [], realtimeChannelRef := None\<rparr>,
      tr @ [SetSession None, SetUser None, SetBookmarks []] @
        (case realtimeChannelRef s of None \<Rightarrow> [] | Some c \<Rightarrow> [RemoveChannel c]))"
  by (cases "realtimeChannelRef s")
     (simp_all add: onAuthStateChange_def run_defs teardownRealtime_open teardownRealtime_closed)

lemma trim_blank: "trim ''  '' = []"
  by (simp add: trim_def isWhiteSpace_def)

subsection \<open>Events for an identifier that is not in the list\<close>

lemma filter_absent_id: "i \<notin> id_b ` set xs \<Longrightarrow> filter (\<lambda>b. id_b b \<noteq> i) xs = xs"
  by (induction xs) auto

lemma map_absent_id: "i \<notin> id_b ` set xs \<Longrightarrow> map (\<lambda>b. if id_b b = i then new else b) xs = xs"
  by (induction xs) auto

text \<open>
  Claim C4. An update or delete event whose identifier does not occur in the list
  leaves the list exactly as it was.
\<close>

theorem update_delete_absent_noop:
  "(id_b new \<notin> id_b ` set current \<longrightarrow> applyPayload (UPDATE new) current = current) \<and>
   (old_id \<notin> id_b ` set current \<longrightarrow> applyPayload (DELETE old_id) current = current)"
  by (simp add: filter_absent_id map_absent_id)

theorem update_delete_absent_noop_witness:
  "id_b ex_b2 \<notin> id_b ` set [ex_b1] \<and> applyPayload (UPDATE ex_b2) [ex_b1] = [ex_b1] \<and>
   ''2'' \<notin> id_b ` set [ex_b1] \<and> applyPayload (DELETE ''2'') [ex_b1] = [ex_b1]"
  using update_delete_absent_noop [of ex_b2 "[ex_b1]" "''2''"]
  by (simp add: ex_defs)

subsection \<open>A duplicate insert\<close>

text \<open>
  Claim C1, as amended. The insert event always appends its record at the end of the list,
  also when the identifier is already in the list. In that case the result is one record
  longer than the result of the update event with the same payload; the two results agree
  only in the last record they hold for each identifier.
\<close>

theorem duplicate_insert_appends:
  "applyPayload (INSERT new) current = current @ [new] \<and>
   (id_b new \<in> id_b ` set current \<longrightarrow>
      length (applyPayload (INSERT new) current) = Suc (length (applyPayload (UPDATE new) current)) \<and>
      latest_by_id (applyPayload (INSERT new) current) =
        latest_by_id (applyPayload (UPDATE new) current))"
proof -
  have "latest_by_id (applyPayload (INSERT new) current) =
        latest_by_id (applyPayload (UPDATE new) current)"
    if present: "id_b new \<in> id_b ` set current"
  proof -
    from present have "id_b new \<in> dom (latest_by_id current)"
      by (simp only: dom_latest)
    then have "latest_by_id current (id_b new) \<noteq> None"
      by blast
    then show ?thesis
      by (simp only: latest_step log_step.simps if_False)
  qed
  then show ?thesis
    by simp
qed

theorem duplicate_insert_appends_witness:
  "id_b ex_b1_renamed \<in> id_b ` set [ex_b1] \<and>
   applyPayload (INSERT ex_b1_renamed) [ex_b1] = [ex_b1, ex_b1_renamed] \<and>
   applyPayload (UPDATE ex_b1_renamed) [ex_b1] = [ex_b1_renamed] \<and>
   latest_by_id [ex_b1, ex_b1_renamed] = latest_by_id [ex_b1_renamed]"
  using duplicate_insert_appends [of ex_b1_renamed "[ex_b1]"]
  by (simp add: ex_defs)

text \<open>
  The claim as the specification states it fails: a duplicate insert is not an update.
\<close>

theorem duplicate_insert_counterexample:
  "id_b ex_b1_renamed \<in> id_b ` set [ex_b1] \<and>
   applyPayload (INSERT ex_b1_renamed) [ex_b1] \<noteq> applyPayload (UPDATE ex_b1_renamed) [ex_b1]"
  by (simp add: ex_defs)

subsection \<open>Sequences of events and the log\<close>

text \<open>
  Claim C2, as amended. For every sequence of events and every initial list, the last
  record per identifier of the resulting list is the record that the log holds for that
  identifier. When the initial list has distinct identifiers and no insert event arrives for
  an identifier that is in the list at that moment, the resulting list has distinct
  identifiers and contains exactly the records of the log.
\<close>

theorem events_refine_log:
  "latest_by_id (applyPayloads evs current) = log_replay evs (latest_by_id current) \<and>
   (distinct (map id_b current) \<and> fresh_inserts evs current \<longrightarrow>
      distinct (map id_b (applyPayloads evs current)) \<and>
      set (applyPayloads evs current) = ran (log_replay evs (latest_by_id current)))"
  using latest_replay [of evs current] fresh_distinct [of current evs]
    ran_latest_distinct [of "applyPayloads evs current"]
  by auto

theorem events_refine_log_witness:
  "distinct (map id_b [ex_b1]) \<and>
   fresh_inserts [INSERT ex_b2, UPDATE ex_b1_renamed, DELETE ''2'', UPDATE ex_b2] [ex_b1] \<and>
   applyPayloads [INSERT ex_b2, UPDATE ex_b1_renamed, DELETE ''2'', UPDATE ex_b2] [ex_b1] = [ex_b1_renamed] \<and>
   ran (log_replay [INSERT ex_b2, UPDATE ex_b1_renamed, DELETE ''2'', UPDATE ex_b2] (latest_by_id [ex_b1]))
     = {ex_b1_renamed}"
proof -
  have a: "applyPayloads [INSERT ex_b2, UPDATE ex_b1_renamed, DELETE ''2'', UPDATE ex_b2] [ex_b1] = [ex_b1_renamed]"
    by (simp add: applyPayloads_def ex_defs)
  have f: "fresh_inserts [INSERT ex_b2, UPDATE ex_b1_renamed, DELETE ''2'', UPDATE ex_b2] [ex_b1]"
    by (simp add: ex_defs)
  have d: "distinct (map id_b [ex_b1])" by simp
  from events_refine_log [of "[INSERT ex_b2, UPDATE ex_b1_renamed, DELETE ''2'', UPDATE ex_b2]" "[ex_b1]"] d f
  have "set (applyPayloads [INSERT ex_b2, UPDATE ex_b1_renamed, DELETE ''2'', UPDATE ex_b2] [ex_b1])
     = ran (log_replay [INSERT ex_b2, UPDATE ex_b1_renamed, DELETE ''2'', UPDATE ex_b2] (latest_by_id [ex_b1]))"
    by blast
  with a d f show ?thesis by simp
qed

text \<open>
  The claim as stated fails: after an insert for an identifier that is in the list, the
  list still holds the old record, which the log has overwritten.
\<close>

theorem events_log_counterexample:
  "ex_b1 \<in> set (applyPayloads [INSERT ex_b1_renamed] [ex_b1]) \<and>
   ex_b1 \<notin> ran (log_replay [INSERT ex_b1_renamed] (latest_by_id [ex_b1]))"
  by (simp add: applyPayloads_def log_replay_def latest_by_id_def ex_defs ran_def)

subsection \<open>Distinct identifiers\<close>

text \<open>
  Claim C3, as amended. When the identifiers of the list are distinct, they are still
  distinct after an update event and after a delete event. After an insert event they are
  distinct exactly when the identifier of the new record was not in the list. After a
  load they are distinct exactly when the request failed (the list is kept) or the records
  of the answer have distinct identifiers (the list is replaced by them).
\<close>

theorem ids_distinct_preserved:
  assumes "distinct (map id_b (bookmarks s))"
  shows "distinct (map id_b (bookmarks (fst (onPayload (UPDATE new) (s, tr))))) \<and>
         distinct (map id_b (bookmarks (fst (onPayload (DELETE old_id) (s, tr))))) \<and>
         (distinct (map id_b (bookmarks (fst (onPayload (INSERT new) (s, tr))))) \<longleftrightarrow>
            id_b new \<notin> id_b ` set (bookmarks s)) \<and>
         (distinct (map id_b (bookmarks (fst (loadBookmarks ans (s, tr))))) \<longleftrightarrow>
            error_a ans \<noteq> None \<or>
            distinct (map id_b (case data_a ans of None \<Rightarrow> [] | Some d \<Rightarrow> d)))"
proof -
  have u: "distinct (map id_b (bookmarks (fst (onPayload (UPDATE new) (s, tr)))))"
    using assms distinct_update by (simp only: bookmarks_onPayload)
  have d: "distinct (map id_b (bookmarks (fst (onPayload (DELETE old_id) (s, tr)))))"
    using assms distinct_delete by (simp only: bookmarks_onPayload)
  have i: "distinct (map id_b (bookmarks (fst (onPayload (INSERT new) (s, tr))))) \<longleftrightarrow>
            id_b new \<notin> id_b ` set (bookmarks s)"
    using assms distinct_insert by (simp only: bookmarks_onPayload)
  have l: "distinct (map id_b (bookmarks (fst (loadBookmarks ans (s, tr))))) \<longleftrightarrow>
            error_a ans \<noteq> None \<or>
            distinct (map id_b (case data_a ans of None \<Rightarrow> [] | Some d \<Rightarrow> d))"
  proof (cases "error_a ans")
    case None
    then show ?thesis by (simp add: loadBookmarks_success)
  next
    case (Some e)
    then show ?thesis using assms by (simp add: loadBookmarks_failure)
  qed
  from u d i l show ?thesis by blast
qed

theorem ids_distinct_preserved_witness:
  "distinct (map id_b (bookmarks (ex_state\<lparr>bookmarks := [ex_b1]\<rparr>))) \<and>
   bookmarks (fst (onPayload (UPDATE ex_b2) (ex_state\<lparr>bookmarks := [ex_b1]\<rparr>, []))) = [ex_b1] \<and>
   bookmarks (fst (onPayload (DELETE ''1'') (ex_state\<lparr>bookmarks := [ex_b1]\<rparr>, []))) = [] \<and>
   bookmarks (fst (onPayload (INSERT ex_b2) (ex_state\<lparr>bookmarks := [ex_b1]\<rparr>, []))) = [ex_b1, ex_b2] \<and>
   distinct (map id_b (bookmarks (fst (onPayload (INSERT ex_b2) (ex_state\<lparr>bookmarks := [ex_b1]\<rparr>, []))))) \<and>
   distinct (map id_b (bookmarks (fst (loadBookmarks \<lparr>data_a = Some [ex_b2, ex_b1], error_a = None\<rparr>
                                        (ex_state\<lparr>bookmarks := [ex_b1]\<rparr>, [])))))"
  using ids_distinct_preserved
    [of "ex_state\<lparr>bookmarks := [ex_b1]\<rparr>" ex_b2 "[]" "''1''" "\<lparr>data_a = Some [ex_b2, ex_b1], error_a = None\<rparr>"]
  by (simp add: ex_defs bookmarks_onPayload)

text \<open>
  The claim as stated fails for the insert event: the record of an identifier that is in
  the list is appended all the same.
\<close>

theorem ids_distinct_counterexample:
  "distinct (map id_b (bookmarks ex_state)) \<and>
   \<not> distinct (map id_b (bookmarks (fst (onPayload (INSERT ex_b1) (ex_state, [])))))"
  by (simp add: ex_defs bookmarks_onPayload)

subsection \<open>The answer of the snapshot load\<close>

text \<open>
  Claim C7. When the select request answers with an error, the list of bookmarks is
  exactly what it was and the error message \<open>Failed to load bookmarks\<close> is set. When it
  answers without an error, the list is replaced by the records of the answer (no records
  when \<open>data\<close> is \<open>null\<close>) and no error message is left.
\<close>

theorem load_failure_keeps_list:
  "(error_a ans \<noteq> None \<longrightarrow>
      bookmarks (fst (loadBookmarks ans (s, tr))) = bookmarks s \<and>
      error (fst (loadBookmarks ans (s, tr))) = Some ''Failed to load bookmarks'') \<and>
   (error_a ans = None \<longrightarrow>
      bookmarks (fst (loadBookmarks ans (s, tr))) = (case data_a ans of None \<Rightarrow> [] | Some d \<Rightarrow> d) \<and>
      error (fst (loadBookmarks ans (s, tr))) = None)"
  by (cases "error_a ans") (simp_all add: loadBookmarks_failure loadBookmarks_success)

theorem load_failure_keeps_list_witness:
  "error_a \<lparr>data_a = None, error_a = Some ''permission denied''\<rparr> \<noteq> None \<and>
   bookmarks (fst (loadBookmarks \<lparr>data_a = None, error_a = Some ''permission denied''\<rparr> (ex_state, [])))
     = [ex_b1, ex_b2] \<and>
   error (fst (loadBookmarks \<lparr>data_a = None, error_a = Some ''permission denied''\<rparr> (ex_state, [])))
     = Some ''Failed to load bookmarks'' \<and>
   error_a \<lparr>data_a = Some [ex_b2], error_a = None\<rparr> = None \<and>
   bookmarks (fst (loadBookmarks \<lparr>data_a = Some [ex_b2], error_a = None\<rparr> (ex_state, []))) = [ex_b2]"
  using load_failure_keeps_list [of "\<lparr>data_a = None, error_a = Some ''permission denied''\<rparr>" ex_state "[]"]
    load_failure_keeps_list [of "\<lparr>data_a = Some [ex_b2], error_a = None\<rparr>" ex_state "[]"]
  by (simp add: ex_state_def)

subsection \<open>The transition to no session\<close>

text \<open>
  Claim C8, as amended. When the listener is told that there is no session, it clears the
  list of bookmarks first and tears the channel down second: the trace is
  \<open>SetSession\<close>, \<open>SetUser\<close>, \<open>SetBookmarks []\<close> and then, when a channel is open,
  \<open>RemoveChannel\<close>. Afterwards the list is empty and the channel reference is \<open>null\<close>,
  whatever the list held before.
\<close>

theorem sign_out_clears_then_tears_down:
  "bookmarks (fst (onAuthStateChange None channel (s, []))) = [] \<and>
   realtimeChannelRef (fst (onAuthStateChange None channel (s, []))) = None \<and>
   snd (onAuthStateChange None channel (s, [])) =
     [SetSession None, SetUser None, SetBookmarks []] @
       (case realtimeChannelRef s of None \<Rightarrow> [] | Some c \<Rightarrow> [RemoveChannel c]) \<and>
   (realtimeChannelRef s = Some c \<longrightarrow>
      happens_before (SetBookmarks []) (RemoveChannel c) (snd (onAuthStateChange None channel (s, []))) \<and>
      \<not> happens_before (RemoveChannel c) (SetBookmarks []) (snd (onAuthStateChange None channel (s, []))))"
  by (simp add: onAuthStateChange_absent happens_before_def)

theorem sign_out_clears_then_tears_down_witness:
  "realtimeChannelRef ex_state = Some 7 \<and>
   bookmarks ex_state = [ex_b1, ex_b2] \<and>
   bookmarks (fst (onAuthStateChange None 8 (ex_state, []))) = [] \<and>
   realtimeChannelRef (fst (onAuthStateChange None 8 (ex_state, []))) = None \<and>
   snd (onAuthStateChange None 8 (ex_state, [])) =
     [SetSession None, SetUser None, SetBookmarks [], RemoveChannel 7]"
  using sign_out_clears_then_tears_down [of 8 ex_state 7]
  by (simp add: ex_state_def)

text \<open>
  The order that the claim states, teardown before clearing, is not the order of the
  listener.
\<close>

theorem teardown_order_counterexample:
  "realtimeChannelRef ex_state = Some 7 \<and>
   \<not> happens_before (RemoveChannel 7) (SetBookmarks []) (snd (onAuthStateChange None 8 (ex_state, []))) \<and>
   happens_before (SetBookmarks []) (RemoveChannel 7) (snd (onAuthStateChange None 8 (ex_state, [])))"
  by (simp add: onAuthStateChange_absent happens_before_def ex_state_def)

text \<open>
  On the way through \<open>handleSignOut\<close> the channel is already removed when the listener
  runs, because \<open>handleSignOut\<close> tears it down before it asks the backend to sign out.
\<close>

lemma explicit_sign_out_trace:
  "realtimeChannelRef s = Some c \<Longrightarrow>
   snd (onAuthStateChange None channel (handleSignOut (s, []))) =
     [SetError None, RemoveChannel c, SignOutRequest, SetSession None, SetUser None, SetBookmarks []]"
  by (simp add: handleSignOut_def run_defs teardownRealtime_open onAuthStateChange_absent)

subsection \<open>Create\<close>

text \<open>
  Claim C10. Without a user, \<open>handleAddBookmark\<close> returns right after
  \<open>event.preventDefault()\<close>: the state (list, input fields, error message and all other
  cells) is unchanged, and no setter and no backend request is called.
\<close>

theorem create_without_user_is_noop:
  "user s = None \<Longrightarrow> handleAddBookmark insert_error (s, []) = (s, [PreventDefault])"
  by (simp add: handleAddBookmark_def run_defs)

theorem create_without_user_is_noop_witness:
  "user (ex_state\<lparr>user := None, title := ''Example'', url := ''example.com/page''\<rparr>) = None \<and>
   handleAddBookmark None (ex_state\<lparr>user := None, title := ''Example'', url := ''example.com/page''\<rparr>, [])
     = (ex_state\<lparr>user := None, title := ''Example'', url := ''example.com/page''\<rparr>, [PreventDefault])"
  using create_without_user_is_noop
    [of "ex_state\<lparr>user := None, title := ''Example'', url := ''example.com/page''\<rparr>" None]
  by simp

text \<open>
  The form is on the page only with a session and a user, so every submit finds a user.
\<close>

lemma form_rendered_with_user:
  "BookmarkApp_page s = BookmarksPage \<Longrightarrow> \<exists>u. user s = Some u"
  by (cases "user s") (simp_all add: BookmarkApp_page_def split: if_splits)

text \<open>
  Claim C6. When the form is submitted (a user is signed in) and the title or the URL is
  empty after trimming, \<open>handleAddBookmark\<close> sets the message
  \<open>Please provide both a title and URL\<close> and does nothing else: no insert request is
  issued, and the list and both input fields are unchanged.
\<close>

theorem validation_rejects_blank_input:
  assumes "user s = Some u" and "trim (title s) = [] \<or> trim (url s) = []"
  shows "fst (handleAddBookmark insert_error (s, [])) = s\<lparr>error := Some ''Please provide both a title and URL''\<rparr> \<and>
         snd (handleAddBookmark insert_error (s, [])) =
           [PreventDefault, SetError (Some ''Please provide both a title and URL'')] \<and>
         (\<forall>row. InsertRequest row \<notin> set (snd (handleAddBookmark insert_error (s, [])))) \<and>
         bookmarks (fst (handleAddBookmark insert_error (s, []))) = bookmarks s \<and>
         title (fst (handleAddBookmark insert_error (s, []))) = title s \<and>
         url (fst (handleAddBookmark insert_error (s, []))) = url s"
proof -
  have "handleAddBookmark insert_error (s, []) =
          (s\<lparr>error := Some ''Please provide both a title and URL''\<rparr>,
           [PreventDefault, SetError (Some ''Please provide both a title and URL'')])"
    using assms by (auto simp add: handleAddBookmark_def run_defs)
  then show ?thesis by simp
qed

theorem validation_rejects_blank_input_witness:
  "user (ex_state\<lparr>title := ''  '', url := ''https://example.com''\<rparr>) = Some ex_user \<and>
   trim (title (ex_state\<lparr>title := ''  '', url := ''https://example.com''\<rparr>)) = [] \<and>
   handleAddBookmark None (ex_state\<lparr>title := ''  '', url := ''https://example.com''\<rparr>, []) =
     (ex_state\<lparr>title := ''  '', url := ''https://example.com'',
                error := Some ''Please provide both a title and URL''\<rparr>,
      [PreventDefault, SetError (Some ''Please provide both a title and URL'')])"
proof -
  have u: "user (ex_state\<lparr>title := ''  '', url := ''https://example.com''\<rparr>) = Some ex_user"
    by (simp add: ex_state_def)
  have t: "trim (title (ex_state\<lparr>title := ''  '', url := ''https://example.com''\<rparr>)) = []"
    by (simp add: trim_blank)
  from validation_rejects_blank_input [OF u disjI1 [OF t], of None] u t
  show ?thesis
    by (simp add: prod_eq_iff)
qed

subsection \<open>The displayed list\<close>

lemma set_sort_insert: "set (sort_insert cmp x ys) = insert x (set ys)"
  by (induction ys) auto

lemma mset_sort_insert: "mset (sort_insert cmp x ys) = add_mset x (mset ys)"
  by (induction ys) auto

lemma mset_js_sort: "mset (js_sort cmp xs) = mset xs"
  by (induction xs) (auto simp: mset_sort_insert)

lemma set_js_sort: "set (js_sort cmp xs) = set xs"
  by (induction xs) (auto simp: set_sort_insert)

lemma newer_eq_trans: "newer_eq g a b \<Longrightarrow> newer_eq g b c \<Longrightarrow> newer_eq g a c"
  by (auto simp: newer_eq_def split: option.splits)

lemma compare_newer:
  "g (created_at x) \<noteq> None \<Longrightarrow> g (created_at y) \<noteq> None \<Longrightarrow>
   (if compareCreated g x y \<le> 0 then newer_eq g x y else newer_eq g y x)"
  by (auto simp: newer_eq_def compareCreated_def split: option.splits)

lemma sorted_sort_insert:
  assumes "g (created_at x) \<noteq> None" and "\<forall>y\<in>set ys. g (created_at y) \<noteq> None"
    and "sorted_wrt (newer_eq g) ys"
  shows "sorted_wrt (newer_eq g) (sort_insert (compareCreated g) x ys)"
  using assms
proof (induction ys)
  case Nil
  then show ?case by simp
next
  case (Cons y ys)
  show ?case
  proof (cases "compareCreated g x y \<le> 0")
    case True
    with compare_newer [of g x y] Cons.prems have xy: "newer_eq g x y" by simp
    have "\<forall>z\<in>set ys. newer_eq g x z"
      using xy Cons.prems(3) newer_eq_trans by auto
    with xy True Cons.prems(3) show ?thesis by simp
  next
    case False
    with compare_newer [of g x y] Cons.prems have yx: "newer_eq g y x" by simp
    have "sorted_wrt (newer_eq g) (sort_insert (compareCreated g) x ys)"
      using Cons by simp
    with yx False Cons.prems(3) show ?thesis
      by (simp add: set_sort_insert)
  qed
qed

lemma sorted_js_sort:
  "\<forall>b\<in>set bs. g (created_at b) \<noteq> None \<Longrightarrow> sorted_wrt (newer_eq g) (js_sort (compareCreated g) bs)"
  by (induction bs) (simp_all add: sorted_sort_insert set_js_sort)

text \<open>
  Claim C9. \<open>sortedBookmarks\<close> is a rearrangement of the list; when every \<open>created_at\<close>
  is a valid date it is sorted by creation time, newest first. A load that returns
  \<open>[b1, b2]\<close> with \<open>b2\<close> newer than \<open>b1\<close> is displayed as \<open>[b2, b1]\<close>, and after
  the delete event for \<open>b2\<close> the display is \<open>[b1]\<close>.
\<close>

theorem display_newest_first:
  "mset (sortedBookmarks getTime bs) = mset bs \<and>
   ((\<forall>b\<in>set bs. getTime (created_at b) \<noteq> None) \<longrightarrow>
      sorted_wrt (newer_eq getTime) (sortedBookmarks getTime bs)) \<and>
   (getTime (created_at b1) = Some t1 \<and> getTime (created_at b2) = Some t2 \<and> t1 < t2 \<and>
    id_b b1 \<noteq> id_b b2 \<and> error_a ans = None \<and> data_a ans = Some [b1, b2] \<longrightarrow>
      sortedBookmarks getTime (bookmarks (fst (loadBookmarks ans (s, tr)))) = [b2, b1] \<and>
      sortedBookmarks getTime
        (bookmarks (fst (onPayload (DELETE (id_b b2)) (loadBookmarks ans (s, tr))))) = [b1])"
proof -
  have m: "mset (sortedBookmarks getTime bs) = mset bs"
    by (simp add: sortedBookmarks_def mset_js_sort)
  have o: "sorted_wrt (newer_eq getTime) (sortedBookmarks getTime bs)"
    if "\<forall>b\<in>set bs. getTime (created_at b) \<noteq> None"
    using that by (simp add: sortedBookmarks_def sorted_js_sort)
  have sc: "sortedBookmarks getTime (bookmarks (fst (loadBookmarks ans (s, tr)))) = [b2, b1] \<and>
      sortedBookmarks getTime
        (bookmarks (fst (onPayload (DELETE (id_b b2)) (loadBookmarks ans (s, tr))))) = [b1]"
    if "getTime (created_at b1) = Some t1" "getTime (created_at b2) = Some t2" "t1 < t2"
      "id_b b1 \<noteq> id_b b2" "error_a ans = None" "data_a ans = Some [b1, b2]"
    using that
    by (simp add: loadBookmarks_success bookmarks_onPayload_run sortedBookmarks_def compareCreated_def)
  from m o sc show ?thesis by blast
qed

theorem display_newest_first_witness:
  "ex_getTime (created_at ex_b1) = Some 1704067200000 \<and>
   ex_getTime (created_at ex_b2) = Some 1704153600000 \<and>
   id_b ex_b1 \<noteq> id_b ex_b2 \<and>
   sortedBookmarks ex_getTime [ex_b1, ex_b2] = [ex_b2, ex_b1] \<and>
   sorted_wrt (newer_eq ex_getTime) [ex_b2, ex_b1] \<and>
   sortedBookmarks ex_getTime
     (bookmarks (fst (loadBookmarks \<lparr>data_a = Some [ex_b1, ex_b2], error_a = None\<rparr> (ex_state, [])))) = [ex_b2, ex_b1] \<and>
   sortedBookmarks ex_getTime
     (bookmarks (fst (onPayload (DELETE ''2'')
        (loadBookmarks \<lparr>data_a = Some [ex_b1, ex_b2], error_a = None\<rparr> (ex_state, []))))) = [ex_b1]"
proof -
  have v: "\<forall>b\<in>set [ex_b1, ex_b2]. ex_getTime (created_at b) \<noteq> None"
    by (simp add: ex_getTime_def ex_b1_def ex_b2_def)
  have t1: "ex_getTime (created_at ex_b1) = Some 1704067200000"
    by (simp add: ex_getTime_def ex_b1_def)
  have t2: "ex_getTime (created_at ex_b2) = Some 1704153600000"
    by (simp add: ex_getTime_def ex_b2_def)
  have i: "id_b ex_b1 \<noteq> id_b ex_b2" "id_b ex_b2 = ''2''"
    by (simp_all add: ex_b1_def ex_b2_def)
  have s: "sortedBookmarks ex_getTime [ex_b1, ex_b2] = [ex_b2, ex_b1]"
    by (simp add: sortedBookmarks_def compareCreated_def t1 t2)
  from display_newest_first
    [of ex_getTime "[ex_b1, ex_b2]" ex_b1 1704067200000 ex_b2 1704153600000
        "\<lparr>data_a = Some [ex_b1, ex_b2], error_a = None\<rparr>" ex_state "[]"]
    v t1 t2 i s
  show ?thesis by simp
qed

subsection \<open>The URL sent by create\<close>

lemma trim_example_1: "trim (normalizedUrl ''example.com/page'') = ''https://example.com/page''"
  by (simp add: trim_def normalizedUrl_def startsWith_def isWhiteSpace_def)

lemma trim_example_2: "trim (normalizedUrl ''http://example.com'') = ''http://example.com''"
  by (simp add: trim_def normalizedUrl_def startsWith_def isWhiteSpace_def)

lemma rtrim_append:
  assumes "p \<noteq> []" and "\<not> isWhiteSpace (last p)"
  shows "rev (dropWhile isWhiteSpace (rev (p @ r))) = p @ rev (dropWhile isWhiteSpace (rev r))"
proof -
  have p: "dropWhile isWhiteSpace (rev p) = rev p"
    using assms by (cases p rule: rev_cases) auto
  show ?thesis
  proof (cases "\<forall>c\<in>set r. isWhiteSpace c")
    case True
    then have "dropWhile isWhiteSpace (rev r) = []" by simp
    with True p show ?thesis by (simp add: dropWhile_append)
  next
    case False
    then obtain c where "c \<in> set (rev r)" "\<not> isWhiteSpace c" by auto
    then show ?thesis by simp
  qed
qed

lemma trim_no_leading:
  "u \<noteq> [] \<Longrightarrow> \<not> isWhiteSpace (hd u) \<Longrightarrow> trim u = rev (dropWhile isWhiteSpace (rev u))"
  by (cases u) (simp_all add: trim_def)

lemma trim_prefixed:
  assumes "p \<noteq> []" and "\<not> isWhiteSpace (hd p)" and "\<not> isWhiteSpace (last p)"
  shows "trim (p @ r) = p @ rev (dropWhile isWhiteSpace (rev r))"
proof -
  have "trim (p @ r) = rev (dropWhile isWhiteSpace (rev (p @ r)))"
    using assms(1,2) by (intro trim_no_leading) auto
  also have "\<dots> = p @ rev (dropWhile isWhiteSpace (rev r))"
    using assms(1,3) by (rule rtrim_append)
  finally show ?thesis .
qed

lemma startsWith_append: "startsWith (p @ r) p"
  by (simp add: startsWith_def)

lemma startsWith_iff: "startsWith s p \<longleftrightarrow> (\<exists>r. s = p @ r)"
  unfolding startsWith_def
  by (metis append_eq_conv_conj append_take_drop_id)

lemma rtrim_prefix: "\<exists>w. u = rev (dropWhile isWhiteSpace (rev u)) @ w"
proof -
  have "rev u = takeWhile isWhiteSpace (rev u) @ dropWhile isWhiteSpace (rev u)" by simp
  then have "rev (rev u) = rev (takeWhile isWhiteSpace (rev u) @ dropWhile isWhiteSpace (rev u))"
    by (simp only:)
  then show ?thesis by (simp only: rev_rev_ident rev_append) blast
qed

lemma scheme_chars:
  "''http://'' \<noteq> []" "\<not> isWhiteSpace (hd ''http://'')" "\<not> isWhiteSpace (last ''http://'')"
  "''https://'' \<noteq> []" "\<not> isWhiteSpace (hd ''https://'')" "\<not> isWhiteSpace (last ''https://'')"
  by (simp_all add: isWhiteSpace_def)

text \<open>
  For a URL that does not begin with white space, the URL that \<open>handleAddBookmark\<close>
  sends is the one the specification describes.
\<close>

lemma normalize_agrees_without_leading_space:
  assumes "u \<noteq> []" and "\<not> isWhiteSpace (hd u)"
  shows "trim (normalizedUrl u) = normalize_spec u"
proof -
  let ?rt = "\<lambda>s. rev (dropWhile isWhiteSpace (rev s))"
  have tu: "trim u = ?rt u" using assms by (rule trim_no_leading)
  have keep: "startsWith (trim u) p" if "startsWith u p" "p \<noteq> []" "\<not> isWhiteSpace (last p)" for p
  proof -
    from that(1) obtain r where r: "u = p @ r" by (auto simp: startsWith_iff)
    have "?rt (p @ r) = p @ ?rt r"
      using that(2,3) by (rule rtrim_append)
    with tu r have "trim u = p @ ?rt r" by (simp only:)
    then show ?thesis by (simp only: startsWith_append)
  qed
  have unkeep: "startsWith u p" if "startsWith (trim u) p" for p
  proof -
    from that obtain r where r: "trim u = p @ r" by (auto simp: startsWith_iff)
    obtain w where "u = ?rt u @ w" using rtrim_prefix by blast
    with r tu have "u = p @ (r @ w)" by simp
    then show ?thesis by (metis startsWith_append)
  qed
  show ?thesis
  proof (cases "startsWith u ''http://'' \<or> startsWith u ''https://''")
    case True
    then have "startsWith (trim u) ''http://'' \<or> startsWith (trim u) ''https://''"
      using keep scheme_chars by blast
    with True show ?thesis by (simp add: normalizedUrl_def normalize_spec_def)
  next
    case False
    then have n: "\<not> (startsWith (trim u) ''http://'' \<or> startsWith (trim u) ''https://'')"
      using unkeep by blast
    have "trim (''https://'' @ u) = ''https://'' @ ?rt u"
      using scheme_chars by (intro trim_prefixed)
    with False n tu show ?thesis by (simp add: normalizedUrl_def normalize_spec_def)
  qed
qed

text \<open>
  What the url input hands over never begins with ASCII whitespace: a URL entered with a
  leading space reaches the handler without it, and is sent as the specification says.
\<close>

lemma urlInputValue_prefix: "\<exists>w. dropWhile isAsciiWhitespace (stripNewlines v) = urlInputValue v @ w"
proof -
  let ?ys = "dropWhile isAsciiWhitespace (stripNewlines v)"
  have "rev ?ys = takeWhile isAsciiWhitespace (rev ?ys) @ dropWhile isAsciiWhitespace (rev ?ys)"
    by simp
  then have "rev (rev ?ys) =
      rev (takeWhile isAsciiWhitespace (rev ?ys) @ dropWhile isAsciiWhitespace (rev ?ys))"
    by (simp only:)
  then have "?ys = rev (dropWhile isAsciiWhitespace (rev ?ys)) @ rev (takeWhile isAsciiWhitespace (rev ?ys))"
    by (simp only: rev_rev_ident rev_append)
  then show ?thesis
    unfolding urlInputValue_def by blast
qed

lemma urlInputValue_no_leading_ascii:
  assumes "urlInputValue v \<noteq> []"
  shows "\<not> isAsciiWhitespace (hd (urlInputValue v))"
proof -
  obtain w where w: "dropWhile isAsciiWhitespace (stripNewlines v) = urlInputValue v @ w"
    using urlInputValue_prefix by blast
  with assms have ne: "dropWhile isAsciiWhitespace (stripNewlines v) \<noteq> []"
    by auto
  have "hd (urlInputValue v) = hd (dropWhile isAsciiWhitespace (stripNewlines v))"
    using w assms by simp
  with ne show ?thesis
    by (simp add: hd_dropWhile)
qed

lemma space_led_url_is_sent_unprefixed:
  "snd (handleAddBookmark None
          (fst (onChangeUrl '' http://example.com'' (ex_state\<lparr>title := ''Example''\<rparr>, [])), [])) =
     [PreventDefault, SetSaving True, SetError None,
      InsertRequest \<lparr>title_r = ''Example'', url_r = ''http://example.com'', user_id = ''u1''\<rparr>,
      SetSaving False, SetTitle [], SetUrl []]"
  by (simp add: handleAddBookmark_def onChangeUrl_def urlInputValue_def stripNewlines_def
      isAsciiWhitespace_def run_defs ex_state_def ex_user_def
      trim_def normalizedUrl_def startsWith_def isWhiteSpace_def)

text \<open>
  Claim C5. The claim holds for the two URLs it names and for every URL without leading
  white space, but not for all strings: the code looks for the scheme in the URL as held in
  the cell and trims afterwards. A URL entered with a leading VT (U+000B), VT followed by
  \<open>http://example.com\<close>, passes the url input as it is and starts with \<open>http://\<close> once
  trimmed; the insert request carries \<open>https://\<close>, the VT and \<open>http://example.com\<close>, where
  the claim asks for \<open>http://example.com\<close>.
\<close>

theorem vt_led_url_gets_prefixed:
  "url (fst (onChangeUrl (CHR 0x0B # ''http://example.com'') (ex_state\<lparr>title := ''Example''\<rparr>, [])))
     = CHR 0x0B # ''http://example.com'' \<and>
   BookmarkApp_page (fst (onChangeUrl (CHR 0x0B # ''http://example.com'')
                            (ex_state\<lparr>title := ''Example''\<rparr>, []))) = BookmarksPage \<and>
   trim (CHR 0x0B # ''http://example.com'') = ''http://example.com'' \<and>
   snd (handleAddBookmark None
          (fst (onChangeUrl (CHR 0x0B # ''http://example.com'') (ex_state\<lparr>title := ''Example''\<rparr>, [])), [])) =
     [PreventDefault, SetSaving True, SetError None,
      InsertRequest \<lparr>title_r = ''Example'',
                     url_r = ''https://'' @ CHR 0x0B # ''http://example.com'',
                     user_id = ''u1''\<rparr>,
      SetSaving False, SetTitle [], SetUrl []] \<and>
   normalize_spec (CHR 0x0B # ''http://example.com'') = ''http://example.com''"
  by (simp add: handleAddBookmark_def onChangeUrl_def urlInputValue_def stripNewlines_def
      isAsciiWhitespace_def BookmarkApp_page_def run_defs ex_state_def ex_user_def
      trim_def normalizedUrl_def normalize_spec_def startsWith_def isWhiteSpace_def)

end
